theory Spec2Isabelle
  imports Main "HOL-Library.AList"
begin

section \<open>Nickname voting (src/commands/nickname.ts)\<close>

subsection \<open>Data\<close>

text \<open>\<^verbatim>\<open>type Vote = "YES" | "NO"\<close> and \<^verbatim>\<open>interface UserVote\<close>.\<close>

datatype Vote = YES | NO

record UserVote =
  vote :: Vote
  trusted :: bool

text \<open>\<^verbatim>\<open>getWeightOfUserVote\<close>: \<^verbatim>\<open>vote.trusted ? 2 : 1\<close>.\<close>

definition getWeightOfUserVote :: "UserVote \<Rightarrow> nat" where
  "getWeightOfUserVote v = (if trusted v then 2 else 1)"

record Suggestion =
  nicknameUserID :: string
  nickname :: string

text \<open>
  The two module-level objects \<^verbatim>\<open>ongoingSuggestions\<close> and \<^verbatim>\<open>idVoteMap\<close>, and the
  nickname table behind \<^verbatim>\<open>Nicknames\<close>. The inner vote object of \<^verbatim>\<open>idVoteMap\<close> is an
  association list in insertion order, because the handler enumerates it with
  \<^verbatim>\<open>Object.values\<close>; assigning to a key that is present replaces its value in
  place, assigning to a new key appends (\<^const>\<open>AList.update\<close>). The type of the
  nickname table is left open: the storage model is not part of the sources.
\<close>

record 'db bot =
  ongoingSuggestions :: "string \<rightharpoonup> Suggestion"
  idVoteMap :: "string \<rightharpoonup> (string \<times> UserVote) list"
  nicknames :: 'db

text \<open>
  What a handler sends back. The message texts are kept as constructors carrying the
  interpolated values.
  \<^item> \<open>SuggestionNotFound\<close>: "Ich find den Namensvorschlag nicht. ..."
  \<^item> \<open>NotCoolEnough\<close>: "Neeeeee, du bist nicht cool genug. Ich hab dein Vote nicht gezaehlt"
  \<^item> \<open>NotSoGood nickname userID\<close>: "Der Vorschlag: `nickname` fuer <@userID> war echt nicht so geil"
  \<^item> \<open>AlreadyExists userID nickname\<close>: "Wuerdet ihr ... aufpassen, wuesstest ihr, dass fuer
    <@userID> `nickname` bereits existiert."
  \<^item> \<open>InRotation userID nickname\<close>: "Fuer <@userID> ist jetzt `nickname` in der Rotation"
  \<^item> \<open>HastAbgestimmt\<close>: "Hast abgestimmt"
  \<^item> \<open>VoteQuestion userID nickname\<close>: "Eh Brudis, soll ich fuer userID nickname hinzufuegen?"
\<close>

datatype content =
    SuggestionNotFound
  | NotCoolEnough
  | NotSoGood string string
  | AlreadyExists string string
  | InRotation string string
  | HastAbgestimmt
  | VoteQuestion string string

text \<open>
  The calls a handler makes on the outside world, in the order it makes them.
  \<^item> \<open>InsertNickname userID nickname\<close>: \<^verbatim>\<open>await Nicknames.insertNickname(userID, nickname)\<close>
  \<^item> \<open>Update c cleared\<close>: \<^verbatim>\<open>interaction.update\<close>; \<open>cleared\<close> holds iff the call passes
    \<^verbatim>\<open>components: []\<close>, which removes the two vote buttons from the message
  \<^item> \<open>Reply c ephemeral\<close>: \<^verbatim>\<open>interaction.reply\<close>
  \<^item> \<open>ReplyWithButtons c\<close>: \<^verbatim>\<open>command.reply\<close> with the row of the two vote buttons
\<close>

datatype effect =
    InsertNickname string string
  | Update content bool
  | Reply content bool
  | ReplyWithButtons content

text \<open>The part of a \<^verbatim>\<open>MessageComponentInteraction\<close> the handler reads.\<close>

record interaction =
  message_id :: string
  user_id :: string
  customId :: string

subsection \<open>Operations\<close>

text \<open>
  \<^verbatim>\<open>getUserVoteMap\<close>: creates the empty vote object when the message has none and returns
  the object stored under the message id. The caller's later writes to the returned
  object are writes to \<^verbatim>\<open>idVoteMap[messageid]\<close>.
\<close>

definition getUserVoteMap :: "'db bot \<Rightarrow> string \<Rightarrow> 'db bot \<times> (string \<times> UserVote) list" where
  "getUserVoteMap st messageid =
     (case idVoteMap st messageid of
        None \<Rightarrow> (st\<lparr>idVoteMap := (idVoteMap st)(messageid \<mapsto> [])\<rparr>, [])
      | Some m \<Rightarrow> (st, m))"

text \<open>
  \<^verbatim>\<open>votes.filter(v => v.vote === x).reduce((sum, uv) => sum + getWeightOfUserVote(uv), 0)\<close>
\<close>

definition weightOf :: "Vote \<Rightarrow> UserVote list \<Rightarrow> nat" where
  "weightOf x votes =
     foldl (\<lambda>sum uservote. sum + getWeightOfUserVote uservote) 0
       (filter (\<lambda>userVote. vote userVote = x) votes)"

text \<open>\<^verbatim>\<open>readonly threshold = 5\<close>\<close>

definition threshold :: nat where
  "threshold = 5"

text \<open>
  Lines 226 to 231 of the handler: the write of the pressed button into the vote object.
  A custom id that is neither of the two leaves the object as it is.
\<close>

definition recordVote :: "string \<Rightarrow> string \<Rightarrow> bool \<Rightarrow> (string \<times> UserVote) list \<Rightarrow> (string \<times> UserVote) list" where
  "recordVote cid uid isTrust userVoteMap =
     (if cid = ''nicknameVoteYes'' then AList.update uid \<lparr>vote = YES, trusted = isTrust\<rparr> userVoteMap
      else if cid = ''nicknameVoteNo'' then AList.update uid \<lparr>vote = NO, trusted = isTrust\<rparr> userVoteMap
      else userVoteMap)"

text \<open>
  \<^verbatim>\<open>NicknameButtonHandler.handleInteraction\<close>. \<open>insertNickname\<close> stands for
  \<^verbatim>\<open>Nicknames.insertNickname\<close> (\<open>Inl\<close> when it throws) and \<open>isTrusted\<close> for
  \<^verbatim>\<open>isTrusted(interaction.guild?.members.cache.get(id)!)\<close>; neither is part of the
  sources, so both are parameters. The result is the state after the call and the
  outside calls made.
\<close>

definition handleInteraction ::
  "('db \<Rightarrow> string \<Rightarrow> string \<Rightarrow> 'e + 'db) \<Rightarrow> (string \<Rightarrow> bool) \<Rightarrow> 'db bot \<Rightarrow> interaction
     \<Rightarrow> 'db bot \<times> effect list" where
  "handleInteraction insertNickname isTrusted st i =
     (case ongoingSuggestions st (message_id i) of
        None \<Rightarrow> (st, [Update SuggestionNotFound True])
      | Some suggestion \<Rightarrow>
          (case getUserVoteMap st (message_id i) of (st1, userVoteMap0) \<Rightarrow>
            let isTrust = isTrusted (user_id i) in
            if \<not> isTrust then (st1, [Reply NotCoolEnough True])
            else
              let userVoteMap = recordVote (customId i) (user_id i) isTrust userVoteMap0;
                  st2 = st1\<lparr>idVoteMap := (idVoteMap st1)(message_id i \<mapsto> userVoteMap)\<rparr>;
                  votes = map snd userVoteMap
              in
                if weightOf NO votes \<ge> threshold then
                  (st2, [Update (NotSoGood (nickname suggestion) (nicknameUserID suggestion)) True])
                else if weightOf YES votes \<ge> threshold then
                  (case insertNickname (nicknames st2) (nicknameUserID suggestion) (nickname suggestion) of
                     Inl error \<Rightarrow>
                       (st2, [InsertNickname (nicknameUserID suggestion) (nickname suggestion),
                              Update (AlreadyExists (nicknameUserID suggestion) (nickname suggestion)) False])
                   | Inr db \<Rightarrow>
                       (st2\<lparr>nicknames := db\<rparr>,
                        [InsertNickname (nicknameUserID suggestion) (nickname suggestion),
                         Update (InRotation (nicknameUserID suggestion) (nickname suggestion)) True]))
                else (st2, [Reply HastAbgestimmt True])))"

text \<open>
  \<^verbatim>\<open>Nickname.createNickNameVote\<close>. \<open>messageid\<close> is the id of the reply fetched with
  \<^verbatim>\<open>command.fetchReply()\<close>, \<open>userid\<close> the id of the user the nickname is proposed for.
\<close>

definition createNickNameVote ::
  "(string \<Rightarrow> bool) \<Rightarrow> 'db bot \<Rightarrow> string \<Rightarrow> string \<Rightarrow> string \<Rightarrow> 'db bot \<times> effect list" where
  "createNickNameVote isTrusted st messageid userid nick =
     (let st1 = st\<lparr>ongoingSuggestions :=
                    (ongoingSuggestions st)(messageid \<mapsto> \<lparr>nicknameUserID = userid, nickname = nick\<rparr>)\<rparr>
      in case getUserVoteMap st1 messageid of (st2, userVoteMap) \<Rightarrow>
           (st2\<lparr>idVoteMap := (idVoteMap st2)(messageid \<mapsto>
                   AList.update userid \<lparr>vote = YES, trusted = isTrusted userid\<rparr> userVoteMap)\<rparr>,
            [ReplyWithButtons (VoteQuestion userid nick)]))"

text \<open>
  Modelled from the spec: \<^verbatim>\<open>Nicknames.insertNickname\<close> of the storage model
  \<^verbatim>\<open>storage/model/Nickname\<close>, which is not part of the sources. The spec gives the table
  as \<open>nickname(userId, nickName)\<close> with the nickname text unique per user, and a
  uniqueness conflict at persist time as a raised error.
\<close>

datatype dbError = UniqueConstraintError | NoResultError

definition insertNickname :: "(string \<times> string) list \<Rightarrow> string \<Rightarrow> string \<Rightarrow> dbError + (string \<times> string) list" where
  "insertNickname rows uid nick =
     (if (uid, nick) \<in> set rows then Inl UniqueConstraintError else Inr (rows @ [(uid, nick)]))"

section \<open>Loot storage (the loot service over the tables \<open>loot\<close> and \<open>lootAttribute\<close>)\<close>

subsection \<open>Tables\<close>

text \<open>
  Timestamps are the values of the database clock \<^verbatim>\<open>current_timestamp\<close>, counted in
  seconds. The rows follow the storage schema; the column \<open>id\<close> of \<open>loot\<close> is the field
  \<open>loot_id\<close>, and the columns \<open>id\<close>, \<open>displayName\<close> and \<open>deletedAt\<close> of \<open>lootAttribute\<close> are
  the fields \<open>attr_id\<close>, \<open>attr_displayName\<close> and \<open>attr_deletedAt\<close>.
\<close>

type_synonym LootId = nat
type_synonym timestamp = nat

record Loot =
  loot_id :: LootId
  displayName :: string
  description :: string
  lootKindId :: nat
  usedImage :: "string option"
  winnerId :: string
  claimedAt :: string
  guildId :: string
  channelId :: string
  messageId :: string
  origin :: string
  predecessor :: "LootId option"
  deletedAt :: "timestamp option"

record LootAttribute =
  attr_id :: nat
  lootId :: LootId
  attributeKindId :: nat
  attributeClassId :: nat
  attr_displayName :: string
  shortDisplay :: string
  color :: "nat option"
  attr_deletedAt :: "timestamp option"

text \<open>\<^verbatim>\<open>interface LootAttributeTemplate\<close>, its fields prefixed with \<open>t_\<close>.\<close>

record LootAttributeTemplate =
  t_id :: nat
  t_classId :: nat
  t_displayName :: string
  t_shortDisplay :: string
  t_color :: "nat option"
  t_initialDropWeight :: "nat option"

record database =
  loot :: "Loot list"
  lootAttribute :: "LootAttribute list"

text \<open>
  Modelled from the spec: the identity the database gives an inserted row. The table
  declarations are not part of the sources; the spec says that the identity of a new
  row is freshly assigned, never copied. The model takes the successor of the largest
  identity in the table.
\<close>

definition freshId :: "nat list \<Rightarrow> nat" where
  "freshId ids = Suc (fold max ids 0)"

text \<open>
  Modelled from the spec: the uniqueness of \<open>lootAttribute\<close> rows per
  (lootId, attributeKindId), the constraint an insert into the table can conflict with.
  The table declarations are not part of the sources.
\<close>

definition conflicts :: "LootAttribute list \<Rightarrow> LootAttribute \<Rightarrow> bool" where
  "conflicts rows new =
     list_ex (\<lambda>a. lootId a = lootId new \<and> attributeKindId a = attributeKindId new) rows"

subsection \<open>Filters\<close>

text \<open>
  \<^verbatim>\<open>notDeleted\<close>: \<^verbatim>\<open>deletedAt is null or deletedAt > current_timestamp\<close>, on the value of
  the column; a comparison with null is not true.
\<close>

definition notDeleted :: "timestamp \<Rightarrow> timestamp option \<Rightarrow> bool" where
  "notDeleted now d = (d = None \<or> (case d of None \<Rightarrow> False | Some t \<Rightarrow> t > now))"

text \<open>
  \<^verbatim>\<open>hasAttribute\<close>: \<^verbatim>\<open>id in (select lootId from lootAttribute where attributeKindId = ?)\<close>.
\<close>

definition hasAttribute :: "nat \<Rightarrow> database \<Rightarrow> Loot \<Rightarrow> bool" where
  "hasAttribute kind db r =
     (loot_id r \<in> set (map lootId (filter (\<lambda>a. attributeKindId a = kind) (lootAttribute db))))"

subsection \<open>Queries\<close>

text \<open>
  Each query takes the database and the value of \<^verbatim>\<open>current_timestamp\<close> at the time
  it runs. \<^verbatim>\<open>execute\<close> gives the list of rows, \<^verbatim>\<open>executeTakeFirst\<close> the first row if any.
\<close>

definition findOfUser :: "database \<Rightarrow> timestamp \<Rightarrow> string \<Rightarrow> Loot list" where
  "findOfUser db now uid =
     filter (\<lambda>r. winnerId r = uid \<and> notDeleted now (deletedAt r)) (loot db)"

definition findOfUserWithAttributes :: "database \<Rightarrow> timestamp \<Rightarrow> string \<Rightarrow> (Loot \<times> LootAttribute list) list" where
  "findOfUserWithAttributes db now uid =
     map (\<lambda>l. (l, filter (\<lambda>a. lootId a = loot_id l \<and> notDeleted now (attr_deletedAt a)) (lootAttribute db)))
       (findOfUser db now uid)"

definition findOfMessage :: "database \<Rightarrow> timestamp \<Rightarrow> string \<Rightarrow> Loot option" where
  "findOfMessage db now mid =
     find (\<lambda>r. messageId r = mid \<and> notDeleted now (deletedAt r)) (loot db)"

definition getUserLootsByTypeId :: "database \<Rightarrow> timestamp \<Rightarrow> string \<Rightarrow> nat \<Rightarrow> Loot list" where
  "getUserLootsByTypeId db now uid kind =
     filter (\<lambda>r. winnerId r = uid \<and> lootKindId r = kind \<and> notDeleted now (deletedAt r)) (loot db)"

definition getUserLootsWithAttribute :: "database \<Rightarrow> timestamp \<Rightarrow> string \<Rightarrow> nat \<Rightarrow> Loot list" where
  "getUserLootsWithAttribute db now uid kind =
     filter (\<lambda>r. winnerId r = uid \<and> notDeleted now (deletedAt r) \<and> hasAttribute kind db r) (loot db)"

definition getUserLootById :: "database \<Rightarrow> timestamp \<Rightarrow> string \<Rightarrow> LootId \<Rightarrow> Loot option" where
  "getUserLootById db now uid lid =
     find (\<lambda>r. winnerId r = uid \<and> loot_id r = lid \<and> notDeleted now (deletedAt r)) (loot db)"

definition getLootsByKindId :: "database \<Rightarrow> timestamp \<Rightarrow> nat \<Rightarrow> Loot list" where
  "getLootsByKindId db now kind =
     filter (\<lambda>r. lootKindId r = kind \<and> notDeleted now (deletedAt r)) (loot db)"

definition getLootsWithAttribute :: "database \<Rightarrow> timestamp \<Rightarrow> nat \<Rightarrow> Loot list" where
  "getLootsWithAttribute db now kind =
     filter (\<lambda>r. notDeleted now (deletedAt r) \<and> hasAttribute kind db r) (loot db)"

definition getLootAttributes :: "database \<Rightarrow> timestamp \<Rightarrow> LootId \<Rightarrow> LootAttribute list" where
  "getLootAttributes db now lid =
     sort_key attributeKindId
       (filter (\<lambda>a. lootId a = lid \<and> notDeleted now (attr_deletedAt a)) (lootAttribute db))"

subsection \<open>Mutations\<close>

text \<open>
  A mutation gives \<open>Inl\<close> when it throws (\<^verbatim>\<open>executeTakeFirstOrThrow\<close> with no row), and
  otherwise the database after it and the returned value. A transaction that throws
  leaves the database as it was, which is the database the caller still holds.
\<close>

text \<open>
  \<^verbatim>\<open>insertInto("loot").values(v).returningAll()\<close>: the row gets its identity from the
  database; \<open>v\<close> carries none (the field \<open>loot_id\<close> of the argument is not read).
\<close>

definition insertIntoLoot :: "database \<Rightarrow> Loot \<Rightarrow> database \<times> Loot" where
  "insertIntoLoot db v =
     (let row = v\<lparr>loot_id := freshId (map loot_id (loot db))\<rparr>
      in (db\<lparr>loot := loot db @ [row]\<rparr>, row))"

text \<open>
  \<^verbatim>\<open>deleteLoot\<close>: \<^verbatim>\<open>update loot set deletedAt = current_timestamp where id = ? returning id\<close>.
\<close>

definition deleteLoot :: "database \<Rightarrow> timestamp \<Rightarrow> LootId \<Rightarrow> dbError + (database \<times> LootId)" where
  "deleteLoot db now lid =
     (case filter (\<lambda>r. loot_id r = lid) (loot db) of
        [] \<Rightarrow> Inl NoResultError
      | res # _ \<Rightarrow>
          Inr (db\<lparr>loot := map (\<lambda>r. if loot_id r = lid then r\<lparr>deletedAt := Some now\<rparr> else r) (loot db)\<rparr>,
               loot_id res))"

text \<open>
  \<^verbatim>\<open>transferLootToUser\<close>: the source row is read with no filter on \<open>deletedAt\<close>, then
  soft-deleted; the replacement spreads the row as it was read.
\<close>

definition transferLootToUser ::
  "database \<Rightarrow> timestamp \<Rightarrow> LootId \<Rightarrow> string \<Rightarrow> bool \<Rightarrow> dbError + (database \<times> Loot)" where
  "transferLootToUser db now lid uid trackPredecessor =
     (case find (\<lambda>r. loot_id r = lid) (loot db) of
        None \<Rightarrow> Inl NoResultError
      | Some oldLoot \<Rightarrow>
          (case deleteLoot db now (loot_id oldLoot) of
             Inl e \<Rightarrow> Inl e
           | Inr (db1, _) \<Rightarrow>
               let replacement = oldLoot\<lparr>winnerId := uid,
                                         origin := ''owner-transfer'',
                                         predecessor := (if trackPredecessor then Some lid else None)\<rparr>
               in Inr (insertIntoLoot db1 replacement)))"

text \<open>\<^verbatim>\<open>replaceLoot\<close>; \<open>replacementLoot\<close> is a \<^verbatim>\<open>LootInsertable\<close>.\<close>

definition replaceLoot ::
  "database \<Rightarrow> timestamp \<Rightarrow> LootId \<Rightarrow> Loot \<Rightarrow> bool \<Rightarrow> dbError + (database \<times> Loot)" where
  "replaceLoot db now lid replacementLoot trackPredecessor =
     (case deleteLoot db now lid of
        Inl e \<Rightarrow> Inl e
      | Inr (db1, _) \<Rightarrow>
          let replacement = (if trackPredecessor then replacementLoot\<lparr>predecessor := Some lid\<rparr>
                             else replacementLoot\<lparr>predecessor := None\<rparr>)
          in Inr (insertIntoLoot db1 replacement))"

text \<open>
  \<^verbatim>\<open>addLootAttributeIfNotPresent\<close>:
  \<^verbatim>\<open>insertInto("lootAttribute").values(...).onConflict(oc => oc.doNothing()).returningAll().executeTakeFirstOrThrow()\<close>.
  On a conflict nothing is inserted and no row is returned, so
  \<^verbatim>\<open>executeTakeFirstOrThrow\<close> throws.
\<close>

definition addLootAttributeIfNotPresent ::
  "database \<Rightarrow> LootId \<Rightarrow> LootAttributeTemplate \<Rightarrow> dbError + (database \<times> LootAttribute)" where
  "addLootAttributeIfNotPresent db lid attributeTemplate =
     (let row = \<lparr>attr_id = freshId (map attr_id (lootAttribute db)),
                 lootId = lid,
                 attributeKindId = t_id attributeTemplate,
                 attributeClassId = t_classId attributeTemplate,
                 attr_displayName = t_displayName attributeTemplate,
                 shortDisplay = t_shortDisplay attributeTemplate,
                 color = t_color attributeTemplate,
                 attr_deletedAt = None\<rparr>
      in if conflicts (lootAttribute db) row then Inl NoResultError
         else Inr (db\<lparr>lootAttribute := lootAttribute db @ [row]\<rparr>, row))"

section \<open>Example states and auxiliary predicates\<close>

text \<open>
  The vote a button stands for, by its custom id (the two ids of \<^verbatim>\<open>NicknameButtonHandler.ids\<close>).
\<close>

definition buttonVote :: "string \<Rightarrow> Vote option" where
  "buttonVote cid = (if cid = ''nicknameVoteYes'' then Some YES else if cid = ''nicknameVoteNo'' then Some NO else None)"

text \<open>
  Whether an outside call is a call of \<^verbatim>\<open>Nicknames.insertNickname\<close>.
\<close>

definition isInsert :: "effect \<Rightarrow> bool" where
  "isInsert e = (case e of InsertNickname _ _ \<Rightarrow> True | _ \<Rightarrow> False)"

text \<open>
  States of the bot over the nickname table modelled above, with one suggestion on the
  message \<open>m1\<close>: the nickname \<open>nick\<close> for the user \<open>u0\<close>.
\<close>

definition emptyBot :: "(string \<times> string) list bot" where
  "emptyBot = \<lparr>ongoingSuggestions = Map.empty, idVoteMap = Map.empty, nicknames = []\<rparr>"

definition twoYes :: "(string \<times> string) list bot" where
  "twoYes =
     \<lparr>ongoingSuggestions = [''m1'' \<mapsto> \<lparr>nicknameUserID = ''u0'', nickname = ''nick''\<rparr>],
      idVoteMap = [''m1'' \<mapsto> [(''u0'', \<lparr>vote = YES, trusted = True\<rparr>),
                                (''u1'', \<lparr>vote = YES, trusted = True\<rparr>)]],
      nicknames = []\<rparr>"

definition twoYesTaken :: "(string \<times> string) list bot" where
  "twoYesTaken = twoYes\<lparr>nicknames := [(''u0'', ''nick'')]\<rparr>"

definition twoNo :: "(string \<times> string) list bot" where
  "twoNo =
     \<lparr>ongoingSuggestions = [''m1'' \<mapsto> \<lparr>nicknameUserID = ''u0'', nickname = ''nick''\<rparr>],
      idVoteMap = [''m1'' \<mapsto> [(''u0'', \<lparr>vote = YES, trusted = False\<rparr>),
                                (''u1'', \<lparr>vote = NO, trusted = True\<rparr>),
                                (''u2'', \<lparr>vote = NO, trusted = True\<rparr>)]],
      nicknames = []\<rparr>"

definition pressYes :: "string \<Rightarrow> interaction" where
  "pressYes uid = \<lparr>message_id = ''m1'', user_id = uid, customId = ''nicknameVoteYes''\<rparr>"

definition pressNo :: "string \<Rightarrow> interaction" where
  "pressNo uid = \<lparr>message_id = ''m1'', user_id = uid, customId = ''nicknameVoteNo''\<rparr>"

text \<open>
  Rows and a database for the loot tables.
\<close>

definition lootRow :: "LootId \<Rightarrow> string \<Rightarrow> timestamp option \<Rightarrow> Loot" where
  "lootRow i w d =
     \<lparr>loot_id = i, displayName = ''Geschenk'', description = ''Ein Geschenk'', lootKindId = 1,
      usedImage = None, winnerId = w, claimedAt = ''2024-12-24T18:00:00.000Z'', guildId = ''g1'',
      channelId = ''c1'', messageId = ''m1'', origin = ''drop'', predecessor = None, deletedAt = d\<rparr>"

definition rare :: LootAttributeTemplate where
  "rare = \<lparr>t_id = 1, t_classId = 1, t_displayName = ''Selten'', t_shortDisplay = ''S'',
           t_color = None, t_initialDropWeight = Some 10\<rparr>"

definition rareRow :: "nat \<Rightarrow> LootId \<Rightarrow> timestamp option \<Rightarrow> LootAttribute" where
  "rareRow i l d =
     \<lparr>attr_id = i, lootId = l, attributeKindId = 1, attributeClassId = 1,
      attr_displayName = ''Selten'', shortDisplay = ''S'', color = None, attr_deletedAt = d\<rparr>"

definition exampleDb :: database where
  "exampleDb =
     \<lparr>loot = [lootRow 1 ''alice'' None, lootRow 2 ''alice'' (Some 100)],
      lootAttribute = [rareRow 1 1 (Some 10)]\<rparr>"

section \<open>Properties of the nickname vote\<close>

subsection \<open>The tally\<close>

lemma foldl_weight:
  "foldl (\<lambda>sum uservote. sum + getWeightOfUserVote uservote) a xs = a + sum_list (map getWeightOfUserVote xs)"
  by (induction xs arbitrary: a) simp_all

lemma weightOf_sum_list:
  "weightOf x votes = sum_list (map getWeightOfUserVote (filter (\<lambda>v. vote v = x) votes))"
  by (simp add: weightOf_def foldl_weight)

lemma weightOf_Nil: "weightOf x [] = 0"
  by (simp add: weightOf_sum_list)

lemma weightOf_Cons:
  "weightOf x (v # vs) = (if vote v = x then getWeightOfUserVote v else 0) + weightOf x vs"
  by (simp add: weightOf_sum_list)

lemma weightOf_count:
  "weightOf x vs = 2 * length (filter (\<lambda>v. vote v = x \<and> trusted v) vs)
                 + length (filter (\<lambda>v. vote v = x \<and> \<not> trusted v) vs)"
  by (induction vs) (simp_all add: weightOf_Nil weightOf_Cons getWeightOfUserVote_def)

lemma weightOf_member:
  "v \<in> set vs \<Longrightarrow> vote v = x \<Longrightarrow> getWeightOfUserVote v \<le> weightOf x vs"
proof (induction vs)
  case Nil
  then show ?case by simp
next
  case (Cons a vs)
  show ?case
  proof (cases "v = a")
    case True
    with Cons.prems show ?thesis by (simp add: weightOf_Cons)
  next
    case False
    with Cons.prems have "v \<in> set vs" by simp
    from Cons.IH [OF this Cons.prems(2)] show ?thesis by (simp add: weightOf_Cons)
  qed
qed

text \<open>
  Writing a vote into a vote object with distinct keys: the tally is the tally of the
  other voters plus the weight of the written vote.
\<close>

lemma weightOf_update:
  "distinct (map fst m) \<Longrightarrow>
   weightOf x (map snd (AList.update k v m)) =
     weightOf x (map snd (AList.delete k m)) + (if vote v = x then getWeightOfUserVote v else 0)"
proof (induction m)
  case Nil
  show ?case by (simp add: weightOf_Nil weightOf_Cons)
next
  case (Cons p m)
  obtain k' v' where p: "p = (k', v')" by (cases p)
  show ?case
  proof (cases "k' = k")
    case True
    with Cons.prems p have "k \<notin> fst ` set m" by auto
    then have "AList.delete k m = m" by simp
    with True p show ?thesis by (simp add: weightOf_Cons)
  next
    case False
    with Cons p show ?thesis by (simp add: weightOf_Cons)
  qed
qed

lemma update_member: "(k, v) \<in> set (AList.update k v m)"
  by (induction m) auto

lemma update_one_entry:
  "distinct (map fst m) \<Longrightarrow> filter (\<lambda>p. fst p = k) (AList.update k v m) = [(k, v)]"
proof (induction m)
  case Nil
  show ?case by simp
next
  case (Cons p m)
  show ?case
  proof (cases "fst p = k")
    case True
    with Cons.prems have "k \<notin> fst ` set m" by auto
    then have "filter (\<lambda>p. fst p = k) m = []" by (auto simp add: filter_empty_conv)
    with True show ?thesis by (cases p) simp
  next
    case False
    with Cons show ?thesis by (cases p) simp
  qed
qed

lemma recordVote_button:
  "buttonVote cid = Some x \<Longrightarrow> recordVote cid uid t m = AList.update uid \<lparr>vote = x, trusted = t\<rparr> m"
  by (auto simp add: buttonVote_def recordVote_def split: if_splits)

lemma recordVote_distinct:
  "distinct (map fst m) \<Longrightarrow> distinct (map fst (recordVote cid uid t m))"
  by (simp add: recordVote_def distinct_update)

subsection \<open>The handler, step by step\<close>

lemma fst_handle_suggestions:
  "ongoingSuggestions (fst (handleInteraction ins isTrusted st i)) = ongoingSuggestions st"
  by (simp add: handleInteraction_def getUserVoteMap_def Let_def split: option.splits sum.splits)

lemma handle_trusted_votes:
  assumes "ongoingSuggestions st (message_id i) = Some sg" and "isTrusted (user_id i)"
  shows "idVoteMap (fst (handleInteraction ins isTrusted st i)) =
           (idVoteMap st)(message_id i \<mapsto>
              recordVote (customId i) (user_id i) True (snd (getUserVoteMap st (message_id i))))"
  using assms
  by (simp add: handleInteraction_def getUserVoteMap_def Let_def split: option.splits sum.splits)

lemma handle_trusted_unfold:
  assumes "ongoingSuggestions st (message_id i) = Some sg" and "isTrusted (user_id i)"
  shows "handleInteraction ins isTrusted st i =
     (let userVoteMap = recordVote (customId i) (user_id i) True (snd (getUserVoteMap st (message_id i)));
          st2 = st\<lparr>idVoteMap := (idVoteMap st)(message_id i \<mapsto> userVoteMap)\<rparr>;
          votes = map snd userVoteMap
      in if weightOf NO votes \<ge> threshold then
           (st2, [Update (NotSoGood (nickname sg) (nicknameUserID sg)) True])
         else if weightOf YES votes \<ge> threshold then
           (case ins (nicknames st) (nicknameUserID sg) (nickname sg) of
              Inl error \<Rightarrow>
                (st2, [InsertNickname (nicknameUserID sg) (nickname sg),
                       Update (AlreadyExists (nicknameUserID sg) (nickname sg)) False])
            | Inr db \<Rightarrow>
                (st2\<lparr>nicknames := db\<rparr>,
                 [InsertNickname (nicknameUserID sg) (nickname sg),
                  Update (InRotation (nicknameUserID sg) (nickname sg)) True]))
         else (st2, [Reply HastAbgestimmt True]))"
  using assms
  by (simp add: handleInteraction_def getUserVoteMap_def Let_def split: option.splits sum.splits)

lemma handle_dom_votes:
  "dom (idVoteMap st) \<subseteq> dom (idVoteMap (fst (handleInteraction ins isTrusted st i)))"
  by (auto simp add: handleInteraction_def getUserVoteMap_def Let_def split: option.splits sum.splits)

lemma handle_votes_present:
  "ongoingSuggestions st (message_id i) = Some sg \<Longrightarrow>
   idVoteMap (fst (handleInteraction ins isTrusted st i)) (message_id i) \<noteq> None"
  by (simp add: handleInteraction_def getUserVoteMap_def Let_def split: option.splits sum.splits)

lemma handle_accept_effects:
  assumes "snd (handleInteraction ins isTrusted st i) = InsertNickname u n # rest"
  shows "ongoingSuggestions st (message_id i) = Some \<lparr>nicknameUserID = u, nickname = n\<rparr>
       \<and> (rest = [Update (InRotation u n) True] \<longrightarrow> ins (nicknames st) u n = Inr (nicknames (fst (handleInteraction ins isTrusted st i))))
       \<and> (rest = [Update (InRotation u n) True] \<or> rest = [Update (AlreadyExists u n) False])"
  using assms
  by (auto simp add: handleInteraction_def getUserVoteMap_def Let_def split: option.splits sum.splits if_splits)

text \<open>
  The keys of every vote object stay distinct, as the keys of an object are: both
  operations keep the invariant.
\<close>

lemma handleInteraction_distinct:
  assumes inv: "\<And>k m. idVoteMap st k = Some m \<Longrightarrow> distinct (map fst m)"
    and after: "idVoteMap (fst (handleInteraction ins isTrusted st i)) k = Some m"
  shows "distinct (map fst m)"
proof (cases "ongoingSuggestions st (message_id i)")
  case None
  then have "fst (handleInteraction ins isTrusted st i) = st"
    by (simp add: handleInteraction_def)
  with after inv show ?thesis by simp
next
  case (Some sg)
  have d0: "distinct (map fst (snd (getUserVoteMap st (message_id i))))"
    using inv [of "message_id i"] by (simp add: getUserVoteMap_def split: option.splits)
  show ?thesis
  proof (cases "isTrusted (user_id i)")
    case True
    note v = handle_trusted_votes [where isTrusted = isTrusted and ins = ins, OF Some True]
    show ?thesis
    proof (cases "k = message_id i")
      case True
      with after v have "m = recordVote (customId i) (user_id i) True (snd (getUserVoteMap st (message_id i)))"
        by simp
      with d0 show ?thesis by (simp add: recordVote_distinct)
    next
      case False
      with after v have "idVoteMap st k = Some m" by simp
      then show ?thesis by (rule inv)
    qed
  next
    case False
    with Some have "idVoteMap (fst (handleInteraction ins isTrusted st i)) = idVoteMap (fst (getUserVoteMap st (message_id i)))"
      by (simp add: handleInteraction_def split: prod.splits)
    with after have "idVoteMap (fst (getUserVoteMap st (message_id i))) k = Some m" by simp
    then have "idVoteMap st k = Some m \<or> m = []"
      by (auto simp add: getUserVoteMap_def split: option.splits if_splits)
    with inv show ?thesis by auto
  qed
qed

lemma createNickNameVote_distinct:
  assumes inv: "\<And>k m. idVoteMap st k = Some m \<Longrightarrow> distinct (map fst m)"
    and after: "idVoteMap (fst (createNickNameVote isTrusted st mid uid nick)) k = Some m"
  shows "distinct (map fst m)"
proof -
  have d0: "distinct (map fst (snd (getUserVoteMap st mid)))"
    using inv [of mid] by (simp add: getUserVoteMap_def split: option.splits)
  have v: "idVoteMap (fst (createNickNameVote isTrusted st mid uid nick)) =
        (idVoteMap st)(mid \<mapsto> AList.update uid \<lparr>vote = YES, trusted = isTrusted uid\<rparr> (snd (getUserVoteMap st mid)))"
    by (simp add: createNickNameVote_def getUserVoteMap_def Let_def split: option.splits)
  show ?thesis
  proof (cases "k = mid")
    case True
    with after v have "m = AList.update uid \<lparr>vote = YES, trusted = isTrusted uid\<rparr> (snd (getUserVoteMap st mid))"
      by simp
    with d0 show ?thesis by (simp add: distinct_update)
  next
    case False
    with after v have "idVoteMap st k = Some m" by simp
    then show ?thesis by (rule inv)
  qed
qed

text \<open>
  Three trusted votes against, on top of the untrusted vote of the target: rejected.
\<close>

lemma three_no_example:
  "handleInteraction insertNickname (\<lambda>u. True) twoNo (pressNo ''u3'') =
     (twoNo\<lparr>idVoteMap := [''m1'' \<mapsto> [(''u0'', \<lparr>vote = YES, trusted = False\<rparr>),
                                (''u1'', \<lparr>vote = NO, trusted = True\<rparr>),
                                (''u2'', \<lparr>vote = NO, trusted = True\<rparr>),
                                (''u3'', \<lparr>vote = NO, trusted = True\<rparr>)]]\<rparr>,
      [Update (NotSoGood ''nick'' ''u0'') True])"
  by (simp add: handleInteraction_def getUserVoteMap_def recordVote_def twoNo_def pressNo_def
      weightOf_Cons weightOf_Nil getWeightOfUserVote_def threshold_def)

lemma twoYes_votes:
  "map snd (recordVote (customId (pressYes ''u2'')) (user_id (pressYes ''u2'')) True
      (snd (getUserVoteMap twoYes (message_id (pressYes ''u2'')))))
   = [\<lparr>vote = YES, trusted = True\<rparr>, \<lparr>vote = YES, trusted = True\<rparr>, \<lparr>vote = YES, trusted = True\<rparr>]"
  by (simp add: twoYes_def pressYes_def recordVote_def getUserVoteMap_def)

subsection \<open>Claims\<close>

text \<open>
  Claim C1. For a suggestion that exists and a trusted voter, the handler tallies the
  whole vote object after the write of the pressed button, with weight 2 for each
  trusted and weight 1 for each untrusted vote. It compares the weight of the votes
  against with the threshold 5 first: if it is reached, the suggestion is rejected and
  the nickname table is left as it is. Only otherwise it compares the weight of the
  votes in favour: if it is reached, the nickname is inserted, and the table is the one
  the insert returns. With neither reached, the voter gets the private acknowledgement.
  Three trusted votes in favour weigh 6, three trusted votes against weigh 6, and one
  untrusted vote alone weighs less than 5 on either side.
\<close>

theorem nickname_vote_tally:
  assumes sg: "ongoingSuggestions st (message_id i) = Some sg"
    and tr: "isTrusted (user_id i)"
    and votes: "votes = map snd (recordVote (customId i) (user_id i) True (snd (getUserVoteMap st (message_id i))))"
    and h: "h = handleInteraction ins isTrusted st i"
  shows "map_option (map snd) (idVoteMap (fst h) (message_id i)) = Some votes
       \<and> weightOf NO votes = 2 * length (filter (\<lambda>v. vote v = NO \<and> trusted v) votes)
                             + 1 * length (filter (\<lambda>v. vote v = NO \<and> \<not> trusted v) votes)
       \<and> weightOf YES votes = 2 * length (filter (\<lambda>v. vote v = YES \<and> trusted v) votes)
                              + 1 * length (filter (\<lambda>v. vote v = YES \<and> \<not> trusted v) votes)
       \<and> (5 \<le> weightOf NO votes \<longrightarrow>
            snd h = [Update (NotSoGood (nickname sg) (nicknameUserID sg)) True]
            \<and> nicknames (fst h) = nicknames st)
       \<and> (weightOf NO votes < 5 \<and> 5 \<le> weightOf YES votes \<longrightarrow>
            hd (snd h) = InsertNickname (nicknameUserID sg) (nickname sg)
            \<and> (\<forall>db. ins (nicknames st) (nicknameUserID sg) (nickname sg) = Inr db \<longrightarrow>
                 nicknames (fst h) = db
                 \<and> snd h = [InsertNickname (nicknameUserID sg) (nickname sg),
                            Update (InRotation (nicknameUserID sg) (nickname sg)) True]))
       \<and> (weightOf NO votes < 5 \<and> weightOf YES votes < 5 \<longrightarrow>
            snd h = [Reply HastAbgestimmt True] \<and> nicknames (fst h) = nicknames st)
       \<and> (\<forall>a b c. trusted a \<and> trusted b \<and> trusted c \<and> vote a = YES \<and> vote b = YES \<and> vote c = YES
            \<longrightarrow> weightOf YES [a, b, c] = 6 \<and> weightOf NO [a, b, c] = 0)
       \<and> (\<forall>a b c. trusted a \<and> trusted b \<and> trusted c \<and> vote a = NO \<and> vote b = NO \<and> vote c = NO
            \<longrightarrow> weightOf NO [a, b, c] = 6)
       \<and> (\<forall>a. \<not> trusted a \<longrightarrow> weightOf YES [a] < 5 \<and> weightOf NO [a] < 5)"
proof -
  note u = handle_trusted_unfold [where isTrusted = isTrusted, OF sg tr]
  have 1: "map_option (map snd) (idVoteMap (fst h) (message_id i)) = Some votes"
    unfolding h votes handle_trusted_votes [where isTrusted = isTrusted, OF sg tr] by simp
  have 2: "weightOf x votes = 2 * length (filter (\<lambda>v. vote v = x \<and> trusted v) votes)
                             + 1 * length (filter (\<lambda>v. vote v = x \<and> \<not> trusted v) votes)" for x
    using weightOf_count [of x votes] by simp
  have 3: "5 \<le> weightOf NO votes \<longrightarrow>
            snd h = [Update (NotSoGood (nickname sg) (nicknameUserID sg)) True]
            \<and> nicknames (fst h) = nicknames st"
    unfolding h u votes by (simp add: Let_def threshold_def)
  have 4: "weightOf NO votes < 5 \<and> 5 \<le> weightOf YES votes \<longrightarrow>
            hd (snd h) = InsertNickname (nicknameUserID sg) (nickname sg)
            \<and> (\<forall>db. ins (nicknames st) (nicknameUserID sg) (nickname sg) = Inr db \<longrightarrow>
                 nicknames (fst h) = db
                 \<and> snd h = [InsertNickname (nicknameUserID sg) (nickname sg),
                            Update (InRotation (nicknameUserID sg) (nickname sg)) True])"
    unfolding h u votes by (simp add: Let_def threshold_def split: sum.splits)
  have 5: "weightOf NO votes < 5 \<and> weightOf YES votes < 5 \<longrightarrow>
            snd h = [Reply HastAbgestimmt True] \<and> nicknames (fst h) = nicknames st"
    unfolding h u votes by (simp add: Let_def threshold_def)
  have 6: "\<forall>a b c. trusted a \<and> trusted b \<and> trusted c \<and> vote a = YES \<and> vote b = YES \<and> vote c = YES
            \<longrightarrow> weightOf YES [a, b, c] = 6 \<and> weightOf NO [a, b, c] = 0"
    by (simp add: weightOf_Cons weightOf_Nil getWeightOfUserVote_def)
  have 7: "\<forall>a b c. trusted a \<and> trusted b \<and> trusted c \<and> vote a = NO \<and> vote b = NO \<and> vote c = NO
            \<longrightarrow> weightOf NO [a, b, c] = 6"
    by (simp add: weightOf_Cons weightOf_Nil getWeightOfUserVote_def)
  have 8: "\<forall>a. \<not> trusted a \<longrightarrow> weightOf YES [a] < 5 \<and> weightOf NO [a] < 5"
    by (simp add: weightOf_Cons weightOf_Nil getWeightOfUserVote_def)
  from 1 2 [of NO] 2 [of YES] 3 4 5 6 7 8 show ?thesis by blast
qed

theorem nickname_vote_tally_witness:
  "ongoingSuggestions twoYes (message_id (pressYes ''u2'')) = Some \<lparr>nicknameUserID = ''u0'', nickname = ''nick''\<rparr>
   \<and> (\<lambda>u. True) (user_id (pressYes ''u2''))
   \<and> weightOf YES [\<lparr>vote = YES, trusted = True\<rparr>, \<lparr>vote = YES, trusted = True\<rparr>, \<lparr>vote = YES, trusted = True\<rparr>] = 6
   \<and> nicknames (fst (handleInteraction insertNickname (\<lambda>u. True) twoYes (pressYes ''u2''))) = [(''u0'', ''nick'')]
   \<and> snd (handleInteraction insertNickname (\<lambda>u. True) twoYes (pressYes ''u2''))
       = [InsertNickname ''u0'' ''nick'', Update (InRotation ''u0'' ''nick'') True]"
proof -
  have sg: "ongoingSuggestions twoYes (message_id (pressYes ''u2'')) = Some \<lparr>nicknameUserID = ''u0'', nickname = ''nick''\<rparr>"
    by (simp add: twoYes_def pressYes_def)
  have ins: "insertNickname (nicknames twoYes) ''u0'' ''nick'' = Inr [(''u0'', ''nick'')]"
    by (simp add: insertNickname_def twoYes_def)
  have w: "weightOf NO [\<lparr>vote = YES, trusted = True\<rparr>, \<lparr>vote = YES, trusted = True\<rparr>, \<lparr>vote = YES, trusted = True\<rparr>] = 0"
    by (simp add: weightOf_Cons weightOf_Nil)
  have tr: "(\<lambda>u. True) (user_id (pressYes ''u2''))" by simp
  from nickname_vote_tally [where isTrusted = "\<lambda>u. True" and ins = insertNickname, OF sg tr twoYes_votes [symmetric] refl]
  show ?thesis using sg ins w by simp
qed

text \<open>
  Claim C6. For a suggestion that exists and a trusted voter, a second press of a vote
  button replaces the vote of the first press: the vote object after both presses is
  the object before them with the second vote written under the voter's id, it has
  exactly one entry for the voter, and the earlier vote adds nothing to the tally. With
  YES first and NO second, the voter counts 2 against and nothing in favour.
\<close>

theorem second_vote_overwrites:
  assumes sg: "ongoingSuggestions st mid = Some sg"
    and tr: "isTrusted uid"
    and m0: "m0 = snd (getUserVoteMap st mid)"
    and d: "distinct (map fst m0)"
    and b1: "buttonVote c1 = Some x1"
    and b2: "buttonVote c2 = Some x2"
    and st1: "st1 = fst (handleInteraction ins isTrusted st \<lparr>message_id = mid, user_id = uid, customId = c1\<rparr>)"
    and st2: "st2 = fst (handleInteraction ins isTrusted st1 \<lparr>message_id = mid, user_id = uid, customId = c2\<rparr>)"
  shows "\<exists>m. idVoteMap st2 mid = Some m
           \<and> m = AList.update uid \<lparr>vote = x2, trusted = True\<rparr> m0
           \<and> distinct (map fst m)
           \<and> filter (\<lambda>p. fst p = uid) m = [(uid, \<lparr>vote = x2, trusted = True\<rparr>)]
           \<and> weightOf x2 (map snd m) = weightOf x2 (map snd (AList.delete uid m0)) + 2
           \<and> (x1 \<noteq> x2 \<longrightarrow> weightOf x1 (map snd m) = weightOf x1 (map snd (AList.delete uid m0)))"
proof -
  let ?i1 = "\<lparr>message_id = mid, user_id = uid, customId = c1\<rparr>"
  let ?i2 = "\<lparr>message_id = mid, user_id = uid, customId = c2\<rparr>"
  let ?m = "AList.update uid \<lparr>vote = x2, trusted = True\<rparr> m0"
  have v1: "idVoteMap st1 = (idVoteMap st)(mid \<mapsto> AList.update uid \<lparr>vote = x1, trusted = True\<rparr> m0)"
    unfolding st1 m0
    using handle_trusted_votes [where isTrusted = isTrusted and i = ?i1 and st = st and ins = ins] sg tr
    by (simp add: recordVote_button [OF b1])
  have sg1: "ongoingSuggestions st1 mid = Some sg"
    unfolding st1 using sg by (simp add: fst_handle_suggestions)
  have g1: "snd (getUserVoteMap st1 mid) = AList.update uid \<lparr>vote = x1, trusted = True\<rparr> m0"
    by (simp add: getUserVoteMap_def v1)
  have v2: "idVoteMap st2 mid = Some ?m"
    unfolding st2
    using handle_trusted_votes [where isTrusted = isTrusted and i = ?i2 and st = st1 and ins = ins] sg1 tr
    by (simp add: recordVote_button [OF b2] g1)
  have dm: "distinct (map fst ?m)"
    using d by (rule distinct_update)
  have one: "filter (\<lambda>p. fst p = uid) ?m = [(uid, \<lparr>vote = x2, trusted = True\<rparr>)]"
    using d by (rule update_one_entry)
  have w: "weightOf x (map snd ?m) = weightOf x (map snd (AList.delete uid m0)) + (if x2 = x then 2 else 0)" for x
    using weightOf_update [OF d, of x uid "\<lparr>vote = x2, trusted = True\<rparr>"]
    by (simp add: getWeightOfUserVote_def)
  have w1: "x1 \<noteq> x2 \<longrightarrow> weightOf x1 (map snd ?m) = weightOf x1 (map snd (AList.delete uid m0))"
    using w [of x1] by simp
  have w2: "weightOf x2 (map snd ?m) = weightOf x2 (map snd (AList.delete uid m0)) + 2"
    using w [of x2] by simp
  from v2 refl dm one w2 w1
  have "idVoteMap st2 mid = Some ?m
           \<and> ?m = AList.update uid \<lparr>vote = x2, trusted = True\<rparr> m0
           \<and> distinct (map fst ?m)
           \<and> filter (\<lambda>p. fst p = uid) ?m = [(uid, \<lparr>vote = x2, trusted = True\<rparr>)]
           \<and> weightOf x2 (map snd ?m) = weightOf x2 (map snd (AList.delete uid m0)) + 2
           \<and> (x1 \<noteq> x2 \<longrightarrow> weightOf x1 (map snd ?m) = weightOf x1 (map snd (AList.delete uid m0)))"
    by (intro conjI)
  then show ?thesis by (rule exI [where x = ?m])
qed

theorem second_vote_overwrites_witness:
  "idVoteMap (fst (handleInteraction insertNickname (\<lambda>u. True)
       (fst (handleInteraction insertNickname (\<lambda>u. True) twoNo (pressYes ''u2''))) (pressNo ''u2''))) ''m1''
     = Some [(''u0'', \<lparr>vote = YES, trusted = False\<rparr>),
             (''u1'', \<lparr>vote = NO, trusted = True\<rparr>),
             (''u2'', \<lparr>vote = NO, trusted = True\<rparr>)]"
proof -
  have sg: "ongoingSuggestions twoNo ''m1'' = Some \<lparr>nicknameUserID = ''u0'', nickname = ''nick''\<rparr>"
    by (simp add: twoNo_def)
  have tr: "(\<lambda>u. True) ''u2''" by simp
  have m0: "snd (getUserVoteMap twoNo ''m1'') =
      [(''u0'', \<lparr>vote = YES, trusted = False\<rparr>), (''u1'', \<lparr>vote = NO, trusted = True\<rparr>),
       (''u2'', \<lparr>vote = NO, trusted = True\<rparr>)]"
    by (simp add: twoNo_def getUserVoteMap_def)
  have d: "distinct (map fst [(''u0'', \<lparr>vote = YES, trusted = False\<rparr>), (''u1'', \<lparr>vote = NO, trusted = True\<rparr>),
       (''u2'', \<lparr>vote = NO, trusted = True\<rparr>)])" by simp
  have b1: "buttonVote ''nicknameVoteYes'' = Some YES" and b2: "buttonVote ''nicknameVoteNo'' = Some NO"
    by (simp_all add: buttonVote_def)
  from second_vote_overwrites [where isTrusted = "\<lambda>u. True" and ins = insertNickname,
      OF sg tr m0 [symmetric] d b1 b2 refl refl]
  show ?thesis by (simp add: pressYes_def pressNo_def)
qed

text \<open>
  Claim C3 does not hold as stated: a rejection leaves the entry of the suggestion in
  \<^verbatim>\<open>ongoingSuggestions\<close> and the vote object in \<^verbatim>\<open>idVoteMap\<close>. Here the fourth
  vote rejects the suggestion on the message \<open>m1\<close>, and both entries are still there.
\<close>

theorem rejected_suggestion_entries_remain_counterexample:
  "snd (handleInteraction insertNickname (\<lambda>u. True) twoNo (pressNo ''u3''))
     = [Update (NotSoGood ''nick'' ''u0'') True]
   \<and> \<not> (ongoingSuggestions (fst (handleInteraction insertNickname (\<lambda>u. True) twoNo (pressNo ''u3''))) ''m1'' = None
        \<and> idVoteMap (fst (handleInteraction insertNickname (\<lambda>u. True) twoNo (pressNo ''u3''))) ''m1'' = None)"
  by (simp add: handleInteraction_def getUserVoteMap_def recordVote_def twoNo_def pressNo_def
      weightOf_Cons weightOf_Nil getWeightOfUserVote_def threshold_def)

text \<open>
  Claim C3, as the code has it. When the handler accepts or rejects a suggestion, it
  deletes nothing: \<^verbatim>\<open>ongoingSuggestions\<close> is unchanged and still holds the suggestion,
  the vote object of the message is still in \<^verbatim>\<open>idVoteMap\<close>, and no other vote object is
  lost. What ends the vote is the message update that removes the buttons. An
  acceptance has inserted the nickname before that update; a rejection leaves the
  nickname table as it is.
\<close>

theorem terminal_state_keeps_entries:
  assumes h: "h = handleInteraction ins isTrusted st i"
    and terminal: "snd h = [Update (NotSoGood n u) True] \<or> snd h = [InsertNickname u n, Update (InRotation u n) True]"
  shows "ongoingSuggestions (fst h) = ongoingSuggestions st
       \<and> ongoingSuggestions (fst h) (message_id i) = Some \<lparr>nicknameUserID = u, nickname = n\<rparr>
       \<and> idVoteMap (fst h) (message_id i) \<noteq> None
       \<and> dom (idVoteMap st) \<subseteq> dom (idVoteMap (fst h))
       \<and> (snd h = [InsertNickname u n, Update (InRotation u n) True] \<longrightarrow>
            ins (nicknames st) u n = Inr (nicknames (fst h)))
       \<and> (snd h = [Update (NotSoGood n u) True] \<longrightarrow> nicknames (fst h) = nicknames st)"
proof -
  have 1: "ongoingSuggestions (fst h) = ongoingSuggestions st"
    unfolding h by (rule fst_handle_suggestions)
  have 2: "ongoingSuggestions st (message_id i) = Some \<lparr>nicknameUserID = u, nickname = n\<rparr>"
    using terminal unfolding h
    by (auto simp add: handleInteraction_def getUserVoteMap_def Let_def split: option.splits sum.splits if_splits)
  have 3: "idVoteMap (fst h) (message_id i) \<noteq> None"
    unfolding h using 2 by (rule handle_votes_present)
  have 4: "dom (idVoteMap st) \<subseteq> dom (idVoteMap (fst h))"
    unfolding h by (rule handle_dom_votes)
  have 5: "snd h = [InsertNickname u n, Update (InRotation u n) True] \<longrightarrow>
            ins (nicknames st) u n = Inr (nicknames (fst h))"
    unfolding h using handle_accept_effects [of ins isTrusted st i u n "[Update (InRotation u n) True]"] by simp
  have 6: "snd h = [Update (NotSoGood n u) True] \<longrightarrow> nicknames (fst h) = nicknames st"
    unfolding h
    by (auto simp add: handleInteraction_def getUserVoteMap_def Let_def split: option.splits sum.splits if_splits)
  from 1 2 3 4 5 6 show ?thesis by simp
qed

theorem terminal_state_keeps_entries_witness:
  "snd (handleInteraction insertNickname (\<lambda>u. True) twoYes (pressYes ''u2''))
      = [InsertNickname ''u0'' ''nick'', Update (InRotation ''u0'' ''nick'') True]
   \<and> ongoingSuggestions (fst (handleInteraction insertNickname (\<lambda>u. True) twoYes (pressYes ''u2''))) ''m1''
      = Some \<lparr>nicknameUserID = ''u0'', nickname = ''nick''\<rparr>
   \<and> idVoteMap (fst (handleInteraction insertNickname (\<lambda>u. True) twoYes (pressYes ''u2''))) ''m1'' \<noteq> None
   \<and> insertNickname [] ''u0'' ''nick'' = Inr (nicknames (fst (handleInteraction insertNickname (\<lambda>u. True) twoYes (pressYes ''u2''))))"
proof -
  have e: "snd (handleInteraction insertNickname (\<lambda>u. True) twoYes (pressYes ''u2''))
      = [InsertNickname ''u0'' ''nick'', Update (InRotation ''u0'' ''nick'') True]"
    by (simp add: handleInteraction_def getUserVoteMap_def recordVote_def twoYes_def pressYes_def
      weightOf_Cons weightOf_Nil getWeightOfUserVote_def threshold_def insertNickname_def)
  have m: "message_id (pressYes ''u2'') = ''m1''" and n: "nicknames twoYes = []"
    and s: "ongoingSuggestions twoYes ''m1'' = Some \<lparr>nicknameUserID = ''u0'', nickname = ''nick''\<rparr>"
    by (simp_all add: pressYes_def twoYes_def)
  from terminal_state_keeps_entries [OF refl, of insertNickname "\<lambda>u. True" twoYes "pressYes ''u2''" "''nick''" "''u0''"] e
  show ?thesis by (simp add: m n s)
qed

text \<open>
  Claim C7. When the votes in favour reach the threshold and the insert of the nickname
  throws, the handler catches the error and answers with the message that the nickname
  already exists. It has called the insert once, it does not send the message of an
  accepted suggestion, the nickname table is as before, and the suggestion is still
  open.
\<close>

theorem persist_conflict_is_reported:
  assumes sg: "ongoingSuggestions st (message_id i) = Some sg"
    and tr: "isTrusted (user_id i)"
    and votes: "votes = map snd (recordVote (customId i) (user_id i) True (snd (getUserVoteMap st (message_id i))))"
    and no: "weightOf NO votes < threshold"
    and yes: "threshold \<le> weightOf YES votes"
    and err: "ins (nicknames st) (nicknameUserID sg) (nickname sg) = Inl e"
    and h: "h = handleInteraction ins isTrusted st i"
  shows "snd h = [InsertNickname (nicknameUserID sg) (nickname sg),
                  Update (AlreadyExists (nicknameUserID sg) (nickname sg)) False]
       \<and> length (filter isInsert (snd h)) = 1
       \<and> Update (InRotation (nicknameUserID sg) (nickname sg)) True \<notin> set (snd h)
       \<and> nicknames (fst h) = nicknames st
       \<and> ongoingSuggestions (fst h) (message_id i) = Some sg"
proof -
  have e: "h = (st\<lparr>idVoteMap := (idVoteMap st)(message_id i \<mapsto>
                     recordVote (customId i) (user_id i) True (snd (getUserVoteMap st (message_id i))))\<rparr>,
                [InsertNickname (nicknameUserID sg) (nickname sg),
                 Update (AlreadyExists (nicknameUserID sg) (nickname sg)) False])"
    unfolding h handle_trusted_unfold [where isTrusted = isTrusted, OF sg tr]
    using no yes err unfolding votes by (simp add: Let_def)
  show ?thesis unfolding e using sg by (simp add: isInsert_def)
qed

theorem persist_conflict_is_reported_witness:
  "insertNickname (nicknames twoYesTaken) ''u0'' ''nick'' = Inl UniqueConstraintError
   \<and> snd (handleInteraction insertNickname (\<lambda>u. True) twoYesTaken (pressYes ''u2''))
       = [InsertNickname ''u0'' ''nick'', Update (AlreadyExists ''u0'' ''nick'') False]
   \<and> nicknames (fst (handleInteraction insertNickname (\<lambda>u. True) twoYesTaken (pressYes ''u2''))) = [(''u0'', ''nick'')]"
proof -
  have sg: "ongoingSuggestions twoYesTaken (message_id (pressYes ''u2'')) = Some \<lparr>nicknameUserID = ''u0'', nickname = ''nick''\<rparr>"
    by (simp add: twoYesTaken_def twoYes_def pressYes_def)
  have tr: "(\<lambda>u. True) (user_id (pressYes ''u2''))" by simp
  have v: "map snd (recordVote (customId (pressYes ''u2'')) (user_id (pressYes ''u2'')) True
      (snd (getUserVoteMap twoYesTaken (message_id (pressYes ''u2'')))))
   = [\<lparr>vote = YES, trusted = True\<rparr>, \<lparr>vote = YES, trusted = True\<rparr>, \<lparr>vote = YES, trusted = True\<rparr>]"
    by (simp add: twoYesTaken_def twoYes_def pressYes_def recordVote_def getUserVoteMap_def)
  have no: "weightOf NO [\<lparr>vote = YES, trusted = True\<rparr>, \<lparr>vote = YES, trusted = True\<rparr>, \<lparr>vote = YES, trusted = True\<rparr>] < threshold"
    by (simp add: weightOf_Cons weightOf_Nil threshold_def)
  have yes: "threshold \<le> weightOf YES [\<lparr>vote = YES, trusted = True\<rparr>, \<lparr>vote = YES, trusted = True\<rparr>, \<lparr>vote = YES, trusted = True\<rparr>]"
    by (simp add: weightOf_Cons weightOf_Nil threshold_def getWeightOfUserVote_def)
  have err: "insertNickname (nicknames twoYesTaken) (nicknameUserID \<lparr>nicknameUserID = ''u0'', nickname = ''nick''\<rparr>)
       (nickname \<lparr>nicknameUserID = ''u0'', nickname = ''nick''\<rparr>) = Inl UniqueConstraintError"
    by (simp add: insertNickname_def twoYesTaken_def)
  have n: "nicknames twoYesTaken = [(''u0'', ''nick'')]" by (simp add: twoYesTaken_def)
  from persist_conflict_is_reported [where isTrusted = "\<lambda>u. True" and ins = insertNickname,
      OF sg tr v [symmetric] no yes err refl] err
  show ?thesis by (simp add: n)
qed

text \<open>
  Claim C8. Creating a nickname vote stores the suggestion under the id of the vote
  message and writes a YES vote under the id of the target user, with the trust of the
  target at that time. The weight of that vote (2 if trusted, 1 if not) is part of the
  weight in favour from the start; on a message with no earlier vote object it is the
  whole tally.
\<close>

theorem createNickNameVote_initial_yes:
  assumes "st' = fst (createNickNameVote isTrusted st mid uid nick)"
  shows "ongoingSuggestions st' mid = Some \<lparr>nicknameUserID = uid, nickname = nick\<rparr>
       \<and> (\<exists>m. idVoteMap st' mid = Some m
             \<and> map_of m uid = Some \<lparr>vote = YES, trusted = isTrusted uid\<rparr>
             \<and> (if isTrusted uid then 2 else 1) \<le> weightOf YES (map snd m)
             \<and> (idVoteMap st mid = None \<longrightarrow>
                  m = [(uid, \<lparr>vote = YES, trusted = isTrusted uid\<rparr>)]
                  \<and> weightOf YES (map snd m) = (if isTrusted uid then 2 else 1)
                  \<and> weightOf NO (map snd m) = 0))"
proof -
  let ?v = "\<lparr>vote = YES, trusted = isTrusted uid\<rparr>"
  let ?old = "snd (getUserVoteMap st mid)"
  let ?m = "AList.update uid ?v ?old"
  have s: "ongoingSuggestions st' mid = Some \<lparr>nicknameUserID = uid, nickname = nick\<rparr>"
    unfolding assms by (simp add: createNickNameVote_def getUserVoteMap_def Let_def split: option.splits)
  have v: "idVoteMap st' mid = Some ?m"
    unfolding assms by (simp add: createNickNameVote_def getUserVoteMap_def Let_def split: option.splits)
  have l: "map_of ?m uid = Some ?v"
    by (simp add: update_conv')
  have "snd (uid, ?v) \<in> snd ` set ?m"
    using update_member [of uid ?v ?old] by (rule imageI)
  then have "?v \<in> set (map snd ?m)" by simp
  from weightOf_member [OF this, of YES]
  have w: "(if isTrusted uid then 2 else 1) \<le> weightOf YES (map snd ?m)"
    by (simp add: getWeightOfUserVote_def)
  have f: "idVoteMap st mid = None \<longrightarrow>
                  ?m = [(uid, ?v)]
                  \<and> weightOf YES (map snd ?m) = (if isTrusted uid then 2 else 1)
                  \<and> weightOf NO (map snd ?m) = 0"
    by (simp add: getUserVoteMap_def weightOf_Cons weightOf_Nil getWeightOfUserVote_def)
  from v l w f have "idVoteMap st' mid = Some ?m
             \<and> map_of ?m uid = Some ?v
             \<and> (if isTrusted uid then 2 else 1) \<le> weightOf YES (map snd ?m)
             \<and> (idVoteMap st mid = None \<longrightarrow>
                  ?m = [(uid, ?v)]
                  \<and> weightOf YES (map snd ?m) = (if isTrusted uid then 2 else 1)
                  \<and> weightOf NO (map snd ?m) = 0)"
    by (intro conjI)
  then have "\<exists>m. idVoteMap st' mid = Some m
             \<and> map_of m uid = Some ?v
             \<and> (if isTrusted uid then 2 else 1) \<le> weightOf YES (map snd m)
             \<and> (idVoteMap st mid = None \<longrightarrow>
                  m = [(uid, ?v)]
                  \<and> weightOf YES (map snd m) = (if isTrusted uid then 2 else 1)
                  \<and> weightOf NO (map snd m) = 0)"
    by (rule exI [where x = ?m])
  with s show ?thesis by (rule conjI)
qed

theorem createNickNameVote_initial_yes_witness:
  "idVoteMap (fst (createNickNameVote (\<lambda>u. True) emptyBot ''m1'' ''u0'' ''nick'')) ''m1''
     = Some [(''u0'', \<lparr>vote = YES, trusted = True\<rparr>)]
   \<and> weightOf YES (map snd [(''u0'', \<lparr>vote = YES, trusted = True\<rparr>)]) = 2"
proof -
  have "idVoteMap emptyBot ''m1'' = None" by (simp add: emptyBot_def)
  with createNickNameVote_initial_yes [OF refl, of "\<lambda>u. True" emptyBot "''m1''" "''u0''" "''nick''"]
  show ?thesis by auto
qed

section \<open>Properties of the loot storage\<close>

subsection \<open>Fresh identities and soft deletion\<close>

lemma fold_max_ge_init: "(a::nat) \<le> fold max ids a"
proof (induction ids arbitrary: a)
  case Nil
  show ?case by simp
next
  case (Cons x xs)
  have "a \<le> max x a" by simp
  also have "max x a \<le> fold max xs (max x a)" by (rule Cons.IH)
  finally show ?case by simp
qed

lemma fold_max_ge_member: "(x::nat) \<in> set ids \<Longrightarrow> x \<le> fold max ids a"
proof (induction ids arbitrary: a)
  case Nil
  then show ?case by simp
next
  case (Cons y ys)
  show ?case
  proof (cases "x = y")
    case True
    have "x \<le> max y a" using True by simp
    also have "max y a \<le> fold max ys (max y a)" by (rule fold_max_ge_init)
    finally show ?thesis by simp
  next
    case False
    with Cons.prems have "x \<in> set ys" by simp
    from Cons.IH [OF this] show ?thesis by simp
  qed
qed

lemma freshId_fresh: "freshId ids \<notin> set ids"
proof
  assume "freshId ids \<in> set ids"
  then have "freshId ids \<le> fold max ids 0" by (rule fold_max_ge_member)
  then show False by (simp add: freshId_def)
qed

lemma notDeleted_Some: "notDeleted t (Some d) = (t < d)"
  by (simp add: notDeleted_def)

lemma notDeleted_None: "notDeleted t None"
  by (simp add: notDeleted_def)

lemma deleteLoot_existing:
  assumes "lid \<in> loot_id ` set (loot db)"
  shows "deleteLoot db now lid =
           Inr (db\<lparr>loot := map (\<lambda>r. if loot_id r = lid then r\<lparr>deletedAt := Some now\<rparr> else r) (loot db)\<rparr>, lid)"
proof -
  from assms have "filter (\<lambda>r. loot_id r = lid) (loot db) \<noteq> []"
    by (auto simp add: filter_empty_conv)
  then obtain res rest where f: "filter (\<lambda>r. loot_id r = lid) (loot db) = res # rest"
    by (cases "filter (\<lambda>r. loot_id r = lid) (loot db)") auto
  then have "res \<in> set (filter (\<lambda>r. loot_id r = lid) (loot db))" by simp
  then have "loot_id res = lid" by simp
  with f show ?thesis by (simp add: deleteLoot_def)
qed

lemma deleteLoot_missing:
  assumes "lid \<notin> loot_id ` set (loot db)"
  shows "deleteLoot db now lid = Inl NoResultError"
proof -
  from assms have "filter (\<lambda>r. loot_id r = lid) (loot db) = []"
    by (auto simp add: filter_empty_conv)
  then show ?thesis by (simp add: deleteLoot_def)
qed

lemma mapped_rows_cases:
  assumes "r \<in> set (map (\<lambda>r. if key r = lid then upd r else r) rows)"
  obtains r0 where "r0 \<in> set rows" and "key r0 = lid" and "r = upd r0"
    | "r \<in> set rows" and "key r \<noteq> lid"
proof -
  from assms obtain r0 where r0: "r0 \<in> set rows" and r: "r = (if key r0 = lid then upd r0 else r0)"
    by (auto simp add: image_iff)
  show thesis
  proof (cases "key r0 = lid")
    case True
    with r0 r that(1) show thesis by simp
  next
    case False
    with r0 r that(2) show thesis by simp
  qed
qed

lemma deleted_rows_inactive:
  assumes r: "r \<in> set (map (\<lambda>r. if loot_id r = lid then r\<lparr>deletedAt := Some now\<rparr> else r) rows)"
    and i: "loot_id r = lid" and t: "now \<le> t"
  shows "\<not> notDeleted t (deletedAt r)"
  using r
proof (cases rule: mapped_rows_cases)
  case (1 r0)
  then have "deletedAt r = Some now" by simp
  with t show ?thesis by (simp add: notDeleted_Some)
next
  case 2
  with i show ?thesis by simp
qed

lemma filter_excludes:
  assumes "\<And>r. r \<in> set rows \<Longrightarrow> key r = lid \<Longrightarrow> \<not> A r"
    and "\<And>r. P r \<Longrightarrow> A r"
  shows "lid \<notin> key ` set (filter P rows)"
proof
  assume "lid \<in> key ` set (filter P rows)"
  then obtain r where "r \<in> set rows" and "P r" and "key r = lid"
    by (auto simp add: image_iff)
  with assms show False by blast
qed

lemma find_None_inactive:
  assumes "\<And>r. r \<in> set rows \<Longrightarrow> key r = lid \<Longrightarrow> \<not> A r"
    and "\<And>r. P r \<Longrightarrow> A r"
  shows "map_option key (find P rows) \<noteq> Some lid"
proof
  assume "map_option key (find P rows) = Some lid"
  then obtain r where f: "find P rows = Some r" and i: "key r = lid"
    by (cases "find P rows") simp_all
  from f have "r \<in> set rows" and "P r"
    by (auto simp add: find_Some_iff)
  with assms i show False by blast
qed

lemma find_existing:
  assumes "lid \<in> key ` set rows"
  obtains r where "find (\<lambda>r. key r = lid) rows = Some r" and "key r = lid" and "r \<in> set rows"
proof -
  from assms have "find (\<lambda>r. key r = lid) rows \<noteq> None"
    by (auto simp add: find_None_iff)
  then obtain r where f: "find (\<lambda>r. key r = lid) rows = Some r" by auto
  then have "key r = lid" and "r \<in> set rows"
    by (auto simp add: find_Some_iff)
  with f that show thesis by blast
qed

lemma find_key:
  assumes "find (\<lambda>r. key r = lid) rows = Some r"
  shows "key r = lid" and "lid \<in> key ` set rows"
  using assms by (auto simp add: find_Some_iff)

lemma softDeleted_ids:
  "map (loot_id \<circ> (\<lambda>r. if loot_id r = lid then r\<lparr>deletedAt := Some now\<rparr> else r)) rows = map loot_id rows"
  by (induction rows) simp_all

text \<open>
  A transfer of a loot that the lookup finds: the rows with the identity are
  soft-deleted, and the clone of the row as it was read is appended under a fresh
  identity.
\<close>

lemma transferLootToUser_found:
  assumes f: "find (\<lambda>r. loot_id r = lid) (loot db) = Some src"
  shows "transferLootToUser db now lid uid track =
     Inr (db\<lparr>loot := map (\<lambda>r. if loot_id r = lid then r\<lparr>deletedAt := Some now\<rparr> else r) (loot db)
                        @ [src\<lparr>winnerId := uid, origin := ''owner-transfer'',
                                predecessor := (if track then Some lid else None),
                                loot_id := freshId (map loot_id (loot db))\<rparr>]\<rparr>,
          src\<lparr>winnerId := uid, origin := ''owner-transfer'',
              predecessor := (if track then Some lid else None),
              loot_id := freshId (map loot_id (loot db))\<rparr>)"
proof -
  from f have k: "loot_id src = lid" and ex: "lid \<in> loot_id ` set (loot db)"
    by (rule find_key)+
  note d = deleteLoot_existing [OF ex, of now]
  show ?thesis
    by (simp add: transferLootToUser_def f k d insertIntoLoot_def softDeleted_ids Let_def)
qed

lemma hasAttribute_row:
  assumes "a \<in> set (lootAttribute db)" and "lootId a = loot_id r" and "attributeKindId a = kind"
  shows "hasAttribute kind db r"
proof -
  from assms(1,3) have "a \<in> set (filter (\<lambda>a. attributeKindId a = kind) (lootAttribute db))" by simp
  then have "lootId a \<in> lootId ` set (filter (\<lambda>a. attributeKindId a = kind) (lootAttribute db))"
    by (rule imageI)
  with assms(2) show ?thesis by (simp add: hasAttribute_def)
qed

lemma exampleDb_ids: "loot_id ` set (loot exampleDb) = {1, 2}"
  by (simp add: exampleDb_def lootRow_def insert_commute)

text \<open>
  After a successful \<^verbatim>\<open>addLootAttributeIfNotPresent\<close>, the same call on the resulting
  database conflicts with the row just inserted and throws.
\<close>

lemma addLootAttribute_second_call:
  assumes "addLootAttributeIfNotPresent db lid t = Inr (db', row)"
  shows "addLootAttributeIfNotPresent db' lid t = Inl NoResultError"
proof -
  from assms have db': "lootAttribute db' = lootAttribute db @ [row]"
    and l: "lootId row = lid" and k: "attributeKindId row = t_id t"
    by (auto simp add: addLootAttributeIfNotPresent_def Let_def split: if_splits)
  show ?thesis
    by (simp add: addLootAttributeIfNotPresent_def Let_def conflicts_def db' l k)
qed

subsection \<open>Claims\<close>

text \<open>
  Claim C5. For a loot that exists, \<^verbatim>\<open>deleteLoot\<close> succeeds, and at every time from the
  deletion on no row with its identity is active, so that none of the queries for
  active loot returns it: \<^verbatim>\<open>findOfUser\<close>, \<^verbatim>\<open>findOfUserWithAttributes\<close>,
  \<^verbatim>\<open>findOfMessage\<close>, \<^verbatim>\<open>getUserLootsByTypeId\<close>, \<^verbatim>\<open>getUserLootsWithAttribute\<close>,
  \<^verbatim>\<open>getUserLootById\<close>, \<^verbatim>\<open>getLootsByKindId\<close> and \<^verbatim>\<open>getLootsWithAttribute\<close>. A row
  is active iff its \<open>deletedAt\<close> is null or later than the time of the query.
\<close>

theorem deleteLoot_not_active:
  assumes ex: "lid \<in> loot_id ` set (loot db)"
    and t: "now \<le> t"
  shows "\<exists>db'. deleteLoot db now lid = Inr (db', lid)
       \<and> (\<forall>r \<in> set (loot db'). loot_id r = lid \<longrightarrow> \<not> notDeleted t (deletedAt r))
       \<and> lid \<notin> loot_id ` set (findOfUser db' t uid)
       \<and> lid \<notin> loot_id ` fst ` set (findOfUserWithAttributes db' t uid)
       \<and> map_option loot_id (findOfMessage db' t mid) \<noteq> Some lid
       \<and> lid \<notin> loot_id ` set (getUserLootsByTypeId db' t uid kind)
       \<and> lid \<notin> loot_id ` set (getUserLootsWithAttribute db' t uid akind)
       \<and> map_option loot_id (getUserLootById db' t uid lid) \<noteq> Some lid
       \<and> lid \<notin> loot_id ` set (getLootsByKindId db' t kind)
       \<and> lid \<notin> loot_id ` set (getLootsWithAttribute db' t akind)"
proof -
  let ?rows = "map (\<lambda>r. if loot_id r = lid then r\<lparr>deletedAt := Some now\<rparr> else r) (loot db)"
  let ?db = "db\<lparr>loot := ?rows\<rparr>"
  let ?A = "\<lambda>r. notDeleted t (deletedAt r)"
  have d: "deleteLoot db now lid = Inr (?db, lid)"
    using ex by (rule deleteLoot_existing)
  have rows: "loot ?db = ?rows" by simp
  have inact: "\<not> ?A r" if "r \<in> set ?rows" and "loot_id r = lid" for r
    using that(1) that(2) t by (rule deleted_rows_inactive)
  have 1: "\<forall>r \<in> set (loot ?db). loot_id r = lid \<longrightarrow> \<not> notDeleted t (deletedAt r)"
    unfolding rows using inact by blast
  have 2: "lid \<notin> loot_id ` set (findOfUser ?db t uid)"
    unfolding findOfUser_def rows by (rule filter_excludes [where A = ?A, OF inact]) simp_all
  have 3: "lid \<notin> loot_id ` fst ` set (findOfUserWithAttributes ?db t uid)"
    using 2 unfolding findOfUserWithAttributes_def by (simp add: image_image)
  have 4: "map_option loot_id (findOfMessage ?db t mid) \<noteq> Some lid"
    unfolding findOfMessage_def rows by (rule find_None_inactive [where A = ?A, OF inact]) simp_all
  have 5: "lid \<notin> loot_id ` set (getUserLootsByTypeId ?db t uid kind)"
    unfolding getUserLootsByTypeId_def rows by (rule filter_excludes [where A = ?A, OF inact]) simp_all
  have 6: "lid \<notin> loot_id ` set (getUserLootsWithAttribute ?db t uid akind)"
    unfolding getUserLootsWithAttribute_def rows by (rule filter_excludes [where A = ?A, OF inact]) simp_all
  have 7: "map_option loot_id (getUserLootById ?db t uid lid) \<noteq> Some lid"
    unfolding getUserLootById_def rows by (rule find_None_inactive [where A = ?A, OF inact]) simp_all
  have 8: "lid \<notin> loot_id ` set (getLootsByKindId ?db t kind)"
    unfolding getLootsByKindId_def rows by (rule filter_excludes [where A = ?A, OF inact]) simp_all
  have 9: "lid \<notin> loot_id ` set (getLootsWithAttribute ?db t akind)"
    unfolding getLootsWithAttribute_def rows by (rule filter_excludes [where A = ?A, OF inact]) simp_all
  from d 1 2 3 4 5 6 7 8 9
  have "deleteLoot db now lid = Inr (?db, lid)
       \<and> (\<forall>r \<in> set (loot ?db). loot_id r = lid \<longrightarrow> \<not> notDeleted t (deletedAt r))
       \<and> lid \<notin> loot_id ` set (findOfUser ?db t uid)
       \<and> lid \<notin> loot_id ` fst ` set (findOfUserWithAttributes ?db t uid)
       \<and> map_option loot_id (findOfMessage ?db t mid) \<noteq> Some lid
       \<and> lid \<notin> loot_id ` set (getUserLootsByTypeId ?db t uid kind)
       \<and> lid \<notin> loot_id ` set (getUserLootsWithAttribute ?db t uid akind)
       \<and> map_option loot_id (getUserLootById ?db t uid lid) \<noteq> Some lid
       \<and> lid \<notin> loot_id ` set (getLootsByKindId ?db t kind)
       \<and> lid \<notin> loot_id ` set (getLootsWithAttribute ?db t akind)"
    by (intro conjI)
  then show ?thesis by (rule exI [where x = ?db])
qed

theorem deleteLoot_not_active_witness:
  "(1::nat) \<in> loot_id ` set (loot exampleDb) \<and> (50::nat) \<le> 60
   \<and> deleteLoot exampleDb 50 1 =
       Inr (exampleDb\<lparr>loot := [lootRow 1 ''alice'' (Some 50), lootRow 2 ''alice'' (Some 100)]\<rparr>, 1)
   \<and> 1 \<notin> loot_id ` set (findOfUser
        (exampleDb\<lparr>loot := [lootRow 1 ''alice'' (Some 50), lootRow 2 ''alice'' (Some 100)]\<rparr>) 60 ''alice'')
   \<and> 1 \<notin> loot_id ` set (getLootsWithAttribute
        (exampleDb\<lparr>loot := [lootRow 1 ''alice'' (Some 50), lootRow 2 ''alice'' (Some 100)]\<rparr>) 60 1)"
proof -
  have ex: "(1::nat) \<in> loot_id ` set (loot exampleDb)" by (simp add: exampleDb_ids)
  have t: "(50::nat) \<le> 60" by simp
  have d: "deleteLoot exampleDb 50 1 =
       Inr (exampleDb\<lparr>loot := [lootRow 1 ''alice'' (Some 50), lootRow 2 ''alice'' (Some 100)]\<rparr>, 1)"
    by (simp add: deleteLoot_def exampleDb_def lootRow_def)
  from deleteLoot_not_active [OF ex t, of "''alice''" "''m1''" 1 1] ex t d
  show ?thesis by auto
qed

text \<open>
  Claim C4. For a loot that exists, \<^verbatim>\<open>transferLootToUser\<close> succeeds and returns a new row
  of the table: its predecessor is the source's identity when the predecessor is
  tracked and null when it is not, its identity is none of the identities in the table
  (so not the source's), its owner is the new owner and its origin is
  \<open>owner-transfer\<close>. From the transfer on, no row with the source's identity is active.
\<close>

theorem transferLootToUser_result:
  assumes ex: "lid \<in> loot_id ` set (loot db)"
    and t: "now \<le> t"
  shows "\<exists>db' new. transferLootToUser db now lid uid track = Inr (db', new)
       \<and> new \<in> set (loot db')
       \<and> predecessor new = (if track then Some lid else None)
       \<and> loot_id new \<noteq> lid
       \<and> loot_id new \<notin> loot_id ` set (loot db)
       \<and> winnerId new = uid
       \<and> origin new = ''owner-transfer''
       \<and> (\<forall>r \<in> set (loot db'). loot_id r = lid \<longrightarrow> \<not> notDeleted t (deletedAt r))"
proof -
  from ex obtain src where f: "find (\<lambda>r. loot_id r = lid) (loot db) = Some src"
    by (rule find_existing)
  let ?rows = "map (\<lambda>r. if loot_id r = lid then r\<lparr>deletedAt := Some now\<rparr> else r) (loot db)"
  let ?new = "src\<lparr>winnerId := uid, origin := ''owner-transfer'',
                  predecessor := (if track then Some lid else None),
                  loot_id := freshId (map loot_id (loot db))\<rparr>"
  let ?db = "db\<lparr>loot := ?rows @ [?new]\<rparr>"
  have 0: "transferLootToUser db now lid uid track = Inr (?db, ?new)"
    using f by (rule transferLootToUser_found)
  have fresh: "loot_id ?new \<notin> loot_id ` set (loot db)"
    using freshId_fresh [of "map loot_id (loot db)"] by simp
  have 1: "?new \<in> set (loot ?db)" by simp
  have 2: "predecessor ?new = (if track then Some lid else None)" by simp
  have 3: "loot_id ?new \<noteq> lid" using fresh ex by metis
  have 5: "winnerId ?new = uid" by simp
  have 6: "origin ?new = ''owner-transfer''" by simp
  have 7: "\<forall>r \<in> set (loot ?db). loot_id r = lid \<longrightarrow> \<not> notDeleted t (deletedAt r)"
  proof (intro ballI impI)
    fix r assume r: "r \<in> set (loot ?db)" and i: "loot_id r = lid"
    have sel: "loot ?db = ?rows @ [?new]" by simp
    from r have "r \<in> set (?rows @ [?new])" unfolding sel .
    then have "r \<in> set ?rows \<or> r = ?new"
      by (simp only: set_append Un_iff list.set insert_iff empty_iff simp_thms)
    then show "\<not> notDeleted t (deletedAt r)"
    proof
      assume "r \<in> set ?rows"
      then show ?thesis using i t by (rule deleted_rows_inactive)
    next
      assume "r = ?new"
      with i 3 show ?thesis by simp
    qed
  qed
  from 0 1 2 3 fresh 5 6 7
  have "transferLootToUser db now lid uid track = Inr (?db, ?new)
       \<and> ?new \<in> set (loot ?db)
       \<and> predecessor ?new = (if track then Some lid else None)
       \<and> loot_id ?new \<noteq> lid
       \<and> loot_id ?new \<notin> loot_id ` set (loot db)
       \<and> winnerId ?new = uid
       \<and> origin ?new = ''owner-transfer''
       \<and> (\<forall>r \<in> set (loot ?db). loot_id r = lid \<longrightarrow> \<not> notDeleted t (deletedAt r))"
    by (intro conjI)
  then show ?thesis by (intro exI [where x = ?db] exI [where x = ?new])
qed

theorem transferLootToUser_result_witness:
  "(1::nat) \<in> loot_id ` set (loot exampleDb) \<and> (50::nat) \<le> 60
   \<and> transferLootToUser exampleDb 50 1 ''bob'' True =
       Inr (exampleDb\<lparr>loot := [lootRow 1 ''alice'' (Some 50), lootRow 2 ''alice'' (Some 100),
                                (lootRow 3 ''bob'' None)\<lparr>origin := ''owner-transfer'', predecessor := Some 1\<rparr>]\<rparr>,
            (lootRow 3 ''bob'' None)\<lparr>origin := ''owner-transfer'', predecessor := Some 1\<rparr>)
   \<and> predecessor ((lootRow 3 ''bob'' None)\<lparr>origin := ''owner-transfer'', predecessor := Some 1\<rparr>) = Some 1
   \<and> loot_id ((lootRow 3 ''bob'' None)\<lparr>origin := ''owner-transfer'', predecessor := Some 1\<rparr>) \<noteq> 1"
proof -
  have ex: "(1::nat) \<in> loot_id ` set (loot exampleDb)" by (simp add: exampleDb_ids)
  have t: "(50::nat) \<le> 60" by simp
  have d: "transferLootToUser exampleDb 50 1 ''bob'' True =
       Inr (exampleDb\<lparr>loot := [lootRow 1 ''alice'' (Some 50), lootRow 2 ''alice'' (Some 100),
                                (lootRow 3 ''bob'' None)\<lparr>origin := ''owner-transfer'', predecessor := Some 1\<rparr>]\<rparr>,
            (lootRow 3 ''bob'' None)\<lparr>origin := ''owner-transfer'', predecessor := Some 1\<rparr>)"
    by (simp add: transferLootToUser_def deleteLoot_def insertIntoLoot_def freshId_def Let_def
        exampleDb_def lootRow_def)
  from transferLootToUser_result [OF ex t, of "''bob''" True] ex t d
  show ?thesis by auto
qed

text \<open>
  Claim C10 does not hold as stated: the clone of an active source need not have a null
  \<open>deletedAt\<close>. The source here is active at time 50, because its \<open>deletedAt\<close> of 100
  is still in the future, and the clone carries the same \<open>deletedAt\<close> of 100.
\<close>

theorem transfer_clone_deletedAt_null_counterexample:
  "notDeleted 50 (deletedAt (lootRow 2 ''alice'' (Some 100)))
   \<and> transferLootToUser exampleDb 50 2 ''bob'' True =
       Inr (exampleDb\<lparr>loot := [lootRow 1 ''alice'' None, lootRow 2 ''alice'' (Some 50),
                                (lootRow 3 ''bob'' (Some 100))\<lparr>origin := ''owner-transfer'', predecessor := Some 2\<rparr>]\<rparr>,
            (lootRow 3 ''bob'' (Some 100))\<lparr>origin := ''owner-transfer'', predecessor := Some 2\<rparr>)
   \<and> deletedAt ((lootRow 3 ''bob'' (Some 100))\<lparr>origin := ''owner-transfer'', predecessor := Some 2\<rparr>) \<noteq> None"
  by (simp add: transferLootToUser_def deleteLoot_def insertIntoLoot_def freshId_def Let_def
        exampleDb_def lootRow_def notDeleted_def)

text \<open>
  Claim C10, as the code has it. \<^verbatim>\<open>transferLootToUser\<close> succeeds for whatever row its
  lookup finds, active or not, and the clone has the \<open>deletedAt\<close> the source had before
  the transfer soft-deleted it. Hence the clone of an active source is active at the
  time of the transfer, with a null \<open>deletedAt\<close> when the source's was null and the same
  future timestamp otherwise; and the clone of a source that is already soft-deleted is
  itself already soft-deleted.
\<close>

theorem transferLootToUser_copies_deletedAt:
  assumes f: "find (\<lambda>r. loot_id r = lid) (loot db) = Some src"
  shows "\<exists>db' new. transferLootToUser db now lid uid track = Inr (db', new)
       \<and> deletedAt new = deletedAt src
       \<and> (notDeleted now (deletedAt src) \<longrightarrow> notDeleted now (deletedAt new))
       \<and> (deletedAt src = None \<longrightarrow> deletedAt new = None)
       \<and> (\<not> notDeleted now (deletedAt src) \<longrightarrow> \<not> notDeleted now (deletedAt new))"
proof -
  let ?rows = "map (\<lambda>r. if loot_id r = lid then r\<lparr>deletedAt := Some now\<rparr> else r) (loot db)"
  let ?new = "src\<lparr>winnerId := uid, origin := ''owner-transfer'',
                  predecessor := (if track then Some lid else None),
                  loot_id := freshId (map loot_id (loot db))\<rparr>"
  let ?db = "db\<lparr>loot := ?rows @ [?new]\<rparr>"
  have 0: "transferLootToUser db now lid uid track = Inr (?db, ?new)"
    using f by (rule transferLootToUser_found)
  have 1: "deletedAt ?new = deletedAt src" by simp
  have "transferLootToUser db now lid uid track = Inr (?db, ?new)
       \<and> deletedAt ?new = deletedAt src
       \<and> (notDeleted now (deletedAt src) \<longrightarrow> notDeleted now (deletedAt ?new))
       \<and> (deletedAt src = None \<longrightarrow> deletedAt ?new = None)
       \<and> (\<not> notDeleted now (deletedAt src) \<longrightarrow> \<not> notDeleted now (deletedAt ?new))"
    unfolding 1 using 0 by simp
  then show ?thesis by (intro exI [where x = ?db] exI [where x = ?new])
qed

theorem transferLootToUser_copies_deletedAt_witness:
  "find (\<lambda>r. loot_id r = 2) (loot exampleDb) = Some (lootRow 2 ''alice'' (Some 100))
   \<and> \<not> notDeleted 200 (deletedAt (lootRow 2 ''alice'' (Some 100)))
   \<and> transferLootToUser exampleDb 200 2 ''bob'' False =
       Inr (exampleDb\<lparr>loot := [lootRow 1 ''alice'' None, lootRow 2 ''alice'' (Some 200),
                                (lootRow 3 ''bob'' (Some 100))\<lparr>origin := ''owner-transfer''\<rparr>]\<rparr>,
            (lootRow 3 ''bob'' (Some 100))\<lparr>origin := ''owner-transfer''\<rparr>)
   \<and> \<not> notDeleted 200 (deletedAt ((lootRow 3 ''bob'' (Some 100))\<lparr>origin := ''owner-transfer''\<rparr>))"
proof -
  have f: "find (\<lambda>r. loot_id r = 2) (loot exampleDb) = Some (lootRow 2 ''alice'' (Some 100))"
    by (simp add: exampleDb_def lootRow_def)
  have n: "\<not> notDeleted 200 (deletedAt (lootRow 2 ''alice'' (Some 100)))"
    by (simp add: lootRow_def notDeleted_def)
  have d: "transferLootToUser exampleDb 200 2 ''bob'' False =
       Inr (exampleDb\<lparr>loot := [lootRow 1 ''alice'' None, lootRow 2 ''alice'' (Some 200),
                                (lootRow 3 ''bob'' (Some 100))\<lparr>origin := ''owner-transfer''\<rparr>]\<rparr>,
            (lootRow 3 ''bob'' (Some 100))\<lparr>origin := ''owner-transfer''\<rparr>)"
    by (simp add: transferLootToUser_def deleteLoot_def insertIntoLoot_def freshId_def Let_def
        exampleDb_def lootRow_def)
  from transferLootToUser_copies_deletedAt [OF f, of 200 "''bob''" False] f n d
  show ?thesis by auto
qed

text \<open>
  Claim C9. \<^verbatim>\<open>getLootsWithAttribute\<close> and \<^verbatim>\<open>getUserLootsWithAttribute\<close> do not look at the
  \<open>deletedAt\<close> of the attribute rows: an active loot whose only attribute row of the
  kind was soft-deleted in the past is returned by both, although the row is not among
  the attributes \<^verbatim>\<open>getLootAttributes\<close> gives for the loot.
\<close>

theorem with_attribute_ignores_attribute_deletion:
  assumes r: "r \<in> set (loot db)"
    and active: "notDeleted now (deletedAt r)"
    and only: "filter (\<lambda>a. lootId a = loot_id r \<and> attributeKindId a = kind) (lootAttribute db) = [a]"
    and deleted: "attr_deletedAt a = Some d" and past: "d \<le> now"
  shows "r \<in> set (getLootsWithAttribute db now kind)
       \<and> r \<in> set (getUserLootsWithAttribute db now (winnerId r) kind)
       \<and> a \<notin> set (getLootAttributes db now (loot_id r))"
proof -
  have "a \<in> set (filter (\<lambda>a. lootId a = loot_id r \<and> attributeKindId a = kind) (lootAttribute db))"
    unfolding only by simp
  then have a: "a \<in> set (lootAttribute db)" and l: "lootId a = loot_id r" and k: "attributeKindId a = kind"
    by simp_all
  from a l k have h: "hasAttribute kind db r" by (rule hasAttribute_row)
  have n: "\<not> notDeleted now (attr_deletedAt a)"
    using past by (simp add: deleted notDeleted_Some)
  have 1: "r \<in> set (getLootsWithAttribute db now kind)"
    using r active h by (simp add: getLootsWithAttribute_def)
  have 2: "r \<in> set (getUserLootsWithAttribute db now (winnerId r) kind)"
    using r active h by (simp add: getUserLootsWithAttribute_def)
  have 3: "a \<notin> set (getLootAttributes db now (loot_id r))"
    using n by (simp add: getLootAttributes_def)
  from 1 2 3 show ?thesis by (intro conjI)
qed

theorem with_attribute_ignores_attribute_deletion_witness:
  "lootRow 1 ''alice'' None \<in> set (loot exampleDb)
   \<and> notDeleted 50 (deletedAt (lootRow 1 ''alice'' None))
   \<and> filter (\<lambda>a. lootId a = loot_id (lootRow 1 ''alice'' None) \<and> attributeKindId a = 1) (lootAttribute exampleDb)
       = [rareRow 1 1 (Some 10)]
   \<and> attr_deletedAt (rareRow 1 1 (Some 10)) = Some 10 \<and> (10::nat) \<le> 50
   \<and> lootRow 1 ''alice'' None \<in> set (getLootsWithAttribute exampleDb 50 1)
   \<and> lootRow 1 ''alice'' None \<in> set (getUserLootsWithAttribute exampleDb 50 ''alice'' 1)
   \<and> getLootAttributes exampleDb 50 1 = []"
proof -
  have r: "lootRow 1 ''alice'' None \<in> set (loot exampleDb)"
    by (simp add: exampleDb_def)
  have active: "notDeleted 50 (deletedAt (lootRow 1 ''alice'' None))"
    by (simp add: lootRow_def notDeleted_def)
  have only: "filter (\<lambda>a. lootId a = loot_id (lootRow 1 ''alice'' None) \<and> attributeKindId a = 1) (lootAttribute exampleDb)
       = [rareRow 1 1 (Some 10)]"
    by (simp add: exampleDb_def lootRow_def rareRow_def)
  have deleted: "attr_deletedAt (rareRow 1 1 (Some 10)) = Some 10"
    by (simp add: rareRow_def)
  have past: "(10::nat) \<le> 50" by simp
  have w: "winnerId (lootRow 1 ''alice'' None) = ''alice''"
    by (simp add: lootRow_def)
  have g: "getLootAttributes exampleDb 50 1 = []"
    by (simp add: getLootAttributes_def exampleDb_def rareRow_def notDeleted_def)
  from with_attribute_ignores_attribute_deletion [OF r active only deleted past, unfolded w]
  show ?thesis using r active only deleted past g by simp
qed

text \<open>
  Claim C2 at a concrete database. The first call of \<^verbatim>\<open>addLootAttributeIfNotPresent\<close>
  inserts the attribute row; the second call with the same loot and template inserts
  nothing and throws, because the insert that did nothing returns no row to
  \<^verbatim>\<open>executeTakeFirstOrThrow\<close>.
\<close>

theorem addLootAttributeIfNotPresent_repeated_call_throws:
  "addLootAttributeIfNotPresent \<lparr>loot = [lootRow 1 ''alice'' None], lootAttribute = []\<rparr> 1 rare
     = Inr (\<lparr>loot = [lootRow 1 ''alice'' None], lootAttribute = [rareRow 1 1 None]\<rparr>, rareRow 1 1 None)
   \<and> addLootAttributeIfNotPresent \<lparr>loot = [lootRow 1 ''alice'' None], lootAttribute = [rareRow 1 1 None]\<rparr> 1 rare
     = Inl NoResultError"
  by (simp add: addLootAttributeIfNotPresent_def conflicts_def freshId_def rare_def rareRow_def Let_def)

end
